theory Spec2Isabelle
  imports Main "HOL-Library.AList"
begin

section \<open>Protocol data\<close>

text \<open>
  The payload of the three target lifecycle events, \<^verbatim>\<open>Protocol.Target.TargetInfo\<close>:
  the fields the browser layer reads. An absent \<^verbatim>\<open>browserContextId\<close> is \<open>None\<close>.
\<close>

record TargetInfo =
  targetId :: string
  type :: string
  url :: string
  browserContextId :: "string option"

text \<open>
  The source throws plain \<^verbatim>\<open>Error\<close> objects that differ in their message only. The
  constructors follow the taxonomy of the specification and carry the message of the
  source.
\<close>

datatype error =
    ConsistencyError string
  | InvalidOperationError string
  | UnknownPermissionError string
  | TimeoutError string int
  | ProtocolError string
  | DisconnectedError

text \<open>
  JavaScript truthiness of an optional string: \<^verbatim>\<open>undefined\<close> and the empty string are
  falsy.
\<close>

definition truthy :: "string option \<Rightarrow> bool" where
  "truthy s = (case s of None \<Rightarrow> False | Some v \<Rightarrow> v \<noteq> [])"

section \<open>Browser contexts and targets\<close>

text \<open>
  A \<^verbatim>\<open>BrowserContext\<close> object holds the connection, the browser and its \<^verbatim>\<open>#id\<close>; the
  first two are the same for every context of one browser, so a context is its id, and
  the default context is the one without id. Object identity (\<^verbatim>\<open>===\<close>) of contexts is
  equality of ids.
\<close>

type_synonym BrowserContext = "string option"

definition isIncognito :: "BrowserContext \<Rightarrow> bool" where
  "isIncognito ctx = truthy ctx"

datatype initialization = Pending | Success | Failed

text \<open>
  Modelled from the spec: the \<^verbatim>\<open>Target\<close> class (\<^verbatim>\<open>./Target\<close>) is not among the sources;
  only its uses in the browser are. A target stores its target-info snapshot, the
  context that owns it and an initialization state (pending, success, failed) that is
  resolved exactly once; \<^verbatim>\<open>_closedCallback\<close> marks it closed.
\<close>

record Target =
  targetInfo :: TargetInfo
  browserContext :: BrowserContext
  initialization :: initialization
  isClosed :: bool

text \<open>
  Modelled from the spec: the constructor of \<^verbatim>\<open>Target\<close>. It stores the target info and
  the owning context. The initialization is resolved through
  \<open>Target_initializedCallback\<close>: at once, to success, for a type that is not attached
  to, and at the end of the attach for the others. Which types are attached to is not
  in the sources, so both resolutions are an event of their own that follows the
  creation (\<open>TargetInitializedEvent\<close> below), and a new target is pending.
\<close>

definition Target_new :: "TargetInfo \<Rightarrow> BrowserContext \<Rightarrow> Target" where
  "Target_new info ctx =
     \<lparr>targetInfo = info, browserContext = ctx, initialization = Pending, isClosed = False\<rparr>"

text \<open>
  Modelled from the spec: \<^verbatim>\<open>_initializedCallback\<close> resolves the initialization
  exactly once; a later call changes nothing.
\<close>

definition Target_initializedCallback :: "Target \<Rightarrow> bool \<Rightarrow> Target" where
  "Target_initializedCallback t success =
     (if initialization t = Pending
      then t\<lparr>initialization := (if success then Success else Failed)\<rparr>
      else t)"

text \<open>
  Modelled from the spec: the value \<^verbatim>\<open>_initializedPromise\<close> has settled to, \<open>None\<close>
  while it is pending, and the flag \<^verbatim>\<open>_isInitialized\<close>.
\<close>

definition Target_initializedPromise :: "Target \<Rightarrow> bool option" where
  "Target_initializedPromise t =
     (case initialization t of Pending \<Rightarrow> None | Success \<Rightarrow> Some True | Failed \<Rightarrow> Some False)"

definition Target_isInitialized :: "Target \<Rightarrow> bool" where
  "Target_isInitialized t = (initialization t = Success)"

text \<open>
  Modelled from the spec: \<^verbatim>\<open>url()\<close> reads the stored info, \<^verbatim>\<open>_targetInfoChanged\<close>
  replaces the stored info and never triggers the initialization again,
  \<^verbatim>\<open>_closedCallback\<close> marks the target closed.
\<close>

definition Target_url :: "Target \<Rightarrow> string" where
  "Target_url t = url (targetInfo t)"

definition Target_targetInfoChanged :: "Target \<Rightarrow> TargetInfo \<Rightarrow> Target" where
  "Target_targetInfoChanged t info = t\<lparr>targetInfo := info\<rparr>"

definition Target_closedCallback :: "Target \<Rightarrow> Target" where
  "Target_closedCallback t = t\<lparr>isClosed := True\<rparr>"

section \<open>The browser\<close>

text \<open>
  The events a browser and a browser context emit (the two enumerations of the source
  have the same members but \<open>Disconnected\<close>), and where an event is emitted.
\<close>

datatype BrowserEmittedEvents = Disconnected | TargetChanged | TargetCreated | TargetDestroyed

datatype emitter = OnBrowser | OnContext BrowserContext

datatype emission = Emit emitter BrowserEmittedEvents Target

text \<open>
  The requests the operations below send over the connection: the context to dispose;
  the origin, the context id (absent for a grant that is not scoped to a context) and the
  protocol permissions to grant.
\<close>

datatype request =
    Target_disposeBrowserContext string
  | Browser_grantPermissions string "string option" "string list"

text \<open>
  The private fields of \<^verbatim>\<open>Browser\<close> the handlers use. The two maps are JavaScript
  \<^verbatim>\<open>Map\<close>s, which keep insertion order: association lists with \<open>map_of\<close> for
  \<^verbatim>\<open>get\<close>/\<^verbatim>\<open>has\<close>, \<open>AList.update\<close> for \<^verbatim>\<open>set\<close> (in place for a known key, at the end for
  a new one) and \<open>AList.delete\<close> for \<^verbatim>\<open>delete\<close>. \<open>sent\<close> is the log of the requests
  handed to the connection.
\<close>

record Browser =
  targetFilterCallback :: "TargetInfo \<Rightarrow> bool"
  isPageTargetCallback :: "TargetInfo \<Rightarrow> bool"
  contexts :: "(string \<times> BrowserContext) list"
  targets :: "(string \<times> Target) list"
  ignoredTargets :: "string set"
  sent :: "request list"

definition defaultContext :: BrowserContext where
  "defaultContext = None"

text \<open>The constructor: the defaults of the two callbacks, one context per initial id.\<close>

definition Browser_new ::
  "string list \<Rightarrow> (TargetInfo \<Rightarrow> bool) option \<Rightarrow> (TargetInfo \<Rightarrow> bool) option \<Rightarrow> Browser" where
  "Browser_new contextIds targetFilter isPageTarget =
     \<lparr>targetFilterCallback = (case targetFilter of None \<Rightarrow> (\<lambda>_. True) | Some f \<Rightarrow> f),
      isPageTargetCallback =
        (case isPageTarget of
           None \<Rightarrow> (\<lambda>target. type target = ''page'' \<or> type target = ''background_page''
                              \<or> type target = ''webview'')
         | Some f \<Rightarrow> f),
      contexts = fold (\<lambda>contextId m. AList.update contextId (Some contextId) m) contextIds [],
      targets = [],
      ignoredTargets = {},
      sent = []\<rparr>"

definition browserContexts :: "Browser \<Rightarrow> BrowserContext list" where
  "browserContexts b = defaultContext # map snd (contexts b)"

definition Browser_targets :: "Browser \<Rightarrow> Target list" where
  "Browser_targets b = filter Target_isInitialized (map snd (targets b))"

definition BrowserContext_targets :: "Browser \<Rightarrow> BrowserContext \<Rightarrow> Target list" where
  "BrowserContext_targets b ctx = filter (\<lambda>target. browserContext target = ctx) (Browser_targets b)"

text \<open>
  A handler returns the error it threw, if any, the browser as it left it and the events
  it emitted, in order.
\<close>

type_synonym outcome = "error option \<times> Browser \<times> emission list"

text \<open>
  \<^verbatim>\<open>#targetCreated\<close>, up to its \<^verbatim>\<open>await\<close>: the context is the registered one of the
  event's context id, and the default context for an absent, empty or unknown id.
\<close>

definition resolveContext :: "Browser \<Rightarrow> TargetInfo \<Rightarrow> BrowserContext option" where
  "resolveContext b info =
     (case browserContextId info of
        None \<Rightarrow> Some defaultContext
      | Some c \<Rightarrow>
          if c \<noteq> [] \<and> map_of (contexts b) c \<noteq> None then map_of (contexts b) c
          else Some defaultContext)"

definition targetCreated :: "Browser \<Rightarrow> TargetInfo \<Rightarrow> outcome" where
  "targetCreated b info =
     (case resolveContext b info of
        None \<Rightarrow> (Some (ConsistencyError ''Missing browser context''), b, [])
      | Some context \<Rightarrow>
          if \<not> targetFilterCallback b info
          then (None, b\<lparr>ignoredTargets := insert (targetId info) (ignoredTargets b)\<rparr>, [])
          else if map_of (targets b) (targetId info) \<noteq> None
          then (Some (ConsistencyError ''Target should not exist before targetCreated''), b, [])
          else (None,
                b\<lparr>targets := AList.update (targetId info) (Target_new info context) (targets b)\<rparr>,
                []))"

text \<open>
  The rest of \<^verbatim>\<open>#targetCreated\<close>, after \<^verbatim>\<open>await target._initializedPromise\<close>: it runs
  when the initialization of the target is resolved, and emits \<open>TargetCreated\<close> on the
  browser and on the owning context when it resolved to true. Modelled from the spec:
  what resolves the promise is the end of the attach in \<^verbatim>\<open>Target\<close>, which is not among
  the sources; a target that left the registry was resolved by \<^verbatim>\<open>#targetDestroyed\<close>.
\<close>

definition targetInitialized :: "Browser \<Rightarrow> string \<Rightarrow> bool \<Rightarrow> outcome" where
  "targetInitialized b tid success =
     (case map_of (targets b) tid of
        None \<Rightarrow> (None, b, [])
      | Some target \<Rightarrow>
          if initialization target \<noteq> Pending then (None, b, [])
          else
            let target' = Target_initializedCallback target success
            in (None,
                b\<lparr>targets := AList.update tid target' (targets b)\<rparr>,
                if Target_initializedPromise target' = Some True
                then [Emit OnBrowser TargetCreated target',
                      Emit (OnContext (browserContext target')) TargetCreated target']
                else []))"

definition targetDestroyed :: "Browser \<Rightarrow> string \<Rightarrow> outcome" where
  "targetDestroyed b tid =
     (if tid \<in> ignoredTargets b then (None, b, [])
      else
        case map_of (targets b) tid of
          None \<Rightarrow>
            (Some (ConsistencyError (''Missing target in _targetDestroyed (id = '' @ tid @ '')'')),
             b, [])
        | Some target \<Rightarrow>
            let target1 = Target_initializedCallback target False;
                b' = b\<lparr>targets := AList.delete tid (targets b)\<rparr>;
                target2 = Target_closedCallback target1
            in (None, b',
                if Target_initializedPromise target2 = Some True
                then [Emit OnBrowser TargetDestroyed target2,
                      Emit (OnContext (browserContext target2)) TargetDestroyed target2]
                else []))"

definition targetInfoChanged :: "Browser \<Rightarrow> TargetInfo \<Rightarrow> outcome" where
  "targetInfoChanged b info =
     (if targetId info \<in> ignoredTargets b then (None, b, [])
      else
        case map_of (targets b) (targetId info) of
          None \<Rightarrow>
            (Some (ConsistencyError
                     (''Missing target in targetInfoChanged (id = '' @ targetId info @ '')'')),
             b, [])
        | Some target \<Rightarrow>
            let previousURL = Target_url target;
                wasInitialized = Target_isInitialized target;
                target' = Target_targetInfoChanged target info;
                b' = b\<lparr>targets := AList.update (targetId info) target' (targets b)\<rparr>
            in (None, b',
                if wasInitialized \<and> previousURL \<noteq> Target_url target'
                then [Emit OnBrowser TargetChanged target',
                      Emit (OnContext (browserContext target')) TargetChanged target']
                else []))"

text \<open>
  The events the connection delivers to the browser, and the end of a target's
  initialization; they are handled one at a time, in arrival order. \<open>handled\<close> is the
  browser a handler leaves, \<open>run\<close> the browser after every event of a list was handled
  in turn. A handler that throws leaves the browser as it was, so \<open>run\<close> of the events
  before the first error is also the browser of a run that ends at that error.
\<close>

datatype event =
    TargetCreatedEvent TargetInfo
  | TargetDestroyedEvent string
  | TargetInfoChangedEvent TargetInfo
  | TargetInitializedEvent string bool

fun dispatch :: "Browser \<Rightarrow> event \<Rightarrow> outcome" where
  "dispatch b (TargetCreatedEvent info) = targetCreated b info"
| "dispatch b (TargetDestroyedEvent tid) = targetDestroyed b tid"
| "dispatch b (TargetInfoChangedEvent info) = targetInfoChanged b info"
| "dispatch b (TargetInitializedEvent tid success) = targetInitialized b tid success"

definition handled :: "Browser \<Rightarrow> event \<Rightarrow> Browser" where
  "handled b e = fst (snd (dispatch b e))"

fun run :: "Browser \<Rightarrow> event list \<Rightarrow> Browser" where
  "run b [] = b"
| "run b (e # es) = run (handled b e) es"

section \<open>Closing a context and overriding permissions\<close>

text \<open>
  A request is appended to \<open>sent\<close> when it is handed to the connection. Its answer is
  an argument of the operation: the error \<^verbatim>\<open>Connection.send\<close> rejects with (a
  \<open>ProtocolError\<close> of the remote side, a \<open>DisconnectedError\<close>), or \<open>None\<close> for success.
\<close>

definition disposeContext :: "Browser \<Rightarrow> string option \<Rightarrow> error option \<Rightarrow> error option \<times> Browser" where
  "disposeContext b contextId answer =
     (if \<not> truthy contextId then (None, b)
      else
        case contextId of
          None \<Rightarrow> (None, b)
        | Some c \<Rightarrow>
            let b1 = b\<lparr>sent := sent b @ [Target_disposeBrowserContext c]\<rparr>
            in (case answer of
                  Some e \<Rightarrow> (Some e, b1)
                | None \<Rightarrow> (None, b1\<lparr>contexts := AList.delete c (contexts b1)\<rparr>)))"

text \<open>
  \<^verbatim>\<open>BrowserContext.close\<close>. Modelled from the spec: \<^verbatim>\<open>assert\<close> (\<^verbatim>\<open>./assert\<close>) is not
  among the sources; it throws an error with the given message when its first argument
  is falsy.
\<close>

definition BrowserContext_close :: "Browser \<Rightarrow> BrowserContext \<Rightarrow> error option \<Rightarrow> error option \<times> Browser" where
  "BrowserContext_close b ctx answer =
     (if \<not> truthy ctx
      then (Some (InvalidOperationError ''Non-incognito profiles cannot be closed!''), b)
      else disposeContext b ctx answer)"

definition WEB_PERMISSION_TO_PROTOCOL_PERMISSION :: "(string \<times> string) list" where
  "WEB_PERMISSION_TO_PROTOCOL_PERMISSION =
     [(''geolocation'', ''geolocation''),
      (''midi'', ''midi''),
      (''notifications'', ''notifications''),
      (''camera'', ''videoCapture''),
      (''microphone'', ''audioCapture''),
      (''background-sync'', ''backgroundSync''),
      (''ambient-light-sensor'', ''sensors''),
      (''accelerometer'', ''sensors''),
      (''gyroscope'', ''sensors''),
      (''magnetometer'', ''sensors''),
      (''accessibility-events'', ''accessibilityEvents''),
      (''clipboard-read'', ''clipboardReadWrite''),
      (''clipboard-write'', ''clipboardReadWrite''),
      (''payment-handler'', ''paymentHandler''),
      (''persistent-storage'', ''durableStorage''),
      (''idle-detection'', ''idleDetection''),
      (''midi-sysex'', ''midiSysex'')]"

text \<open>
  The callback of \<^verbatim>\<open>permissions.map\<close>: it throws at a name without a (truthy) token,
  so the first such name of the list, from the left, ends the call.
\<close>

definition protocolPermission :: "string \<Rightarrow> error + string" where
  "protocolPermission permission =
     (case map_of WEB_PERMISSION_TO_PROTOCOL_PERMISSION permission of
        None \<Rightarrow> Inl (UnknownPermissionError (''Unknown permission: '' @ permission))
      | Some token \<Rightarrow>
          if token = [] then Inl (UnknownPermissionError (''Unknown permission: '' @ permission))
          else Inr token)"

fun protocolPermissions :: "string list \<Rightarrow> error + string list" where
  "protocolPermissions [] = Inr []"
| "protocolPermissions (permission # rest) =
     (case protocolPermission permission of
        Inl e \<Rightarrow> Inl e
      | Inr token \<Rightarrow>
          (case protocolPermissions rest of
             Inl e \<Rightarrow> Inl e
           | Inr tokens \<Rightarrow> Inr (token # tokens)))"

definition overridePermissions ::
  "Browser \<Rightarrow> BrowserContext \<Rightarrow> string \<Rightarrow> string list \<Rightarrow> error option \<Rightarrow> error option \<times> Browser" where
  "overridePermissions b ctx origin permissions answer =
     (case protocolPermissions permissions of
        Inl e \<Rightarrow> (Some e, b)
      | Inr tokens \<Rightarrow>
          let b1 = b\<lparr>sent := sent b @
                     [Browser_grantPermissions origin (if truthy ctx then ctx else None) tokens]\<rparr>
          in (case answer of Some e \<Rightarrow> (Some e, b1) | None \<Rightarrow> (None, b1)))"

section \<open>Waiting for a target\<close>

text \<open>
  What happens after the call of \<^verbatim>\<open>waitForTarget\<close>, in the order the event loop runs
  it: an event is emitted, or the timer of \<^verbatim>\<open>waitWithTimeout\<close> fires. The promise the
  call returns is read after a finite number of such happenings.
\<close>

datatype happening = Emission emission | TimerFired

datatype 'a promise = Unsettled | Fulfilled 'a | Rejected error

text \<open>The two variables of the closure: \<^verbatim>\<open>isResolved\<close> and the value of \<^verbatim>\<open>targetPromise\<close>.\<close>

record waiting =
  isResolved :: bool
  targetPromise :: "Target option"

text \<open>
  \<^verbatim>\<open>check\<close>, for a predicate that answers without suspending: the continuations after
  \<^verbatim>\<open>await predicate(target)\<close> then run in the order of the calls.
\<close>

definition check :: "(Target \<Rightarrow> bool) \<Rightarrow> waiting \<Rightarrow> Target \<Rightarrow> waiting" where
  "check predicate w target =
     (if predicate target \<and> \<not> isResolved w
      then w\<lparr>isResolved := True, targetPromise := Some target\<rparr>
      else w)"

text \<open>
  The listeners are registered on the browser for \<open>TargetCreated\<close> and \<open>TargetChanged\<close>;
  any other emission does not reach \<^verbatim>\<open>check\<close>.
\<close>

fun deliver :: "(Target \<Rightarrow> bool) \<Rightarrow> waiting \<Rightarrow> emission \<Rightarrow> waiting" where
  "deliver predicate w (Emit OnBrowser TargetCreated target) = check predicate w target"
| "deliver predicate w (Emit OnBrowser TargetChanged target) = check predicate w target"
| "deliver predicate w _ = w"

text \<open>
  \<^verbatim>\<open>await targetPromise\<close>, the branch without timer. While the call is suspended the
  happenings take place in order: an emission calls the listeners; no timer was started
  on this branch, so the passing of time changes nothing.
\<close>

fun awaitTargetPromise :: "(Target \<Rightarrow> bool) \<Rightarrow> waiting \<Rightarrow> happening list \<Rightarrow> Target promise" where
  "awaitTargetPromise predicate w [] =
     (case targetPromise w of Some target \<Rightarrow> Fulfilled target | None \<Rightarrow> Unsettled)"
| "awaitTargetPromise predicate w (h # hs) =
     (case targetPromise w of
        Some target \<Rightarrow> Fulfilled target
      | None \<Rightarrow>
          (case h of
             Emission em \<Rightarrow> awaitTargetPromise predicate (deliver predicate w em) hs
           | TimerFired \<Rightarrow> awaitTargetPromise predicate w hs))"

text \<open>
  Modelled from the spec: \<^verbatim>\<open>waitWithTimeout\<close> (\<^verbatim>\<open>./util\<close>) is not among the sources. It
  settles with the promise when that is resolved before the timer fires, and fails with
  a \<open>TimeoutError\<close> naming the wait subject and the duration when the timer fires first.
\<close>

fun waitWithTimeout ::
  "(Target \<Rightarrow> bool) \<Rightarrow> waiting \<Rightarrow> string \<Rightarrow> int \<Rightarrow> happening list \<Rightarrow> Target promise" where
  "waitWithTimeout predicate w taskName timeout [] =
     (case targetPromise w of Some target \<Rightarrow> Fulfilled target | None \<Rightarrow> Unsettled)"
| "waitWithTimeout predicate w taskName timeout (h # hs) =
     (case targetPromise w of
        Some target \<Rightarrow> Fulfilled target
      | None \<Rightarrow>
          (case h of
             Emission em \<Rightarrow> waitWithTimeout predicate (deliver predicate w em) taskName timeout hs
           | TimerFired \<Rightarrow> Rejected (TimeoutError taskName timeout)))"

text \<open>
  \<^verbatim>\<open>Browser.waitForTarget\<close>: with a timeout of 0 it awaits the promise at once; otherwise
  it first calls \<^verbatim>\<open>check\<close> on every target of \<^verbatim>\<open>targets()\<close>, in order.
\<close>

definition waitForTarget ::
  "Browser \<Rightarrow> (Target \<Rightarrow> bool) \<Rightarrow> int \<Rightarrow> happening list \<Rightarrow> Target promise" where
  "waitForTarget b predicate timeout hs =
     (let w = \<lparr>isResolved = False, targetPromise = None\<rparr>
      in if timeout = 0 then awaitTargetPromise predicate w hs
         else waitWithTimeout predicate
                (fold (\<lambda>target w'. check predicate w' target) (Browser_targets b) w)
                ''target'' timeout hs)"

section \<open>Measures of an event sequence\<close>

text \<open>
  The ids of the creation and destruction events of a sequence, in order; a sequence has
  unique ids when no id is created twice and none is destroyed twice.
\<close>

fun createdIds :: "event list \<Rightarrow> string list" where
  "createdIds [] = []"
| "createdIds (TargetCreatedEvent info # es) = targetId info # createdIds es"
| "createdIds (_ # es) = createdIds es"

fun destroyedIds :: "event list \<Rightarrow> string list" where
  "destroyedIds [] = []"
| "destroyedIds (TargetDestroyedEvent tid # es) = tid # destroyedIds es"
| "destroyedIds (_ # es) = destroyedIds es"

definition uniqueIds :: "event list \<Rightarrow> bool" where
  "uniqueIds evs = (distinct (createdIds evs) \<and> distinct (destroyedIds evs))"

text \<open>
  The number of creations the target filter accepts, and the number of destructions of
  an id whose accepted creation came earlier in the sequence (\<open>acc\<close> holds the ids the
  filter accepted so far).
\<close>

fun acceptedCreations :: "(TargetInfo \<Rightarrow> bool) \<Rightarrow> event list \<Rightarrow> nat" where
  "acceptedCreations f [] = 0"
| "acceptedCreations f (TargetCreatedEvent info # es) =
     (if f info then 1 else 0) + acceptedCreations f es"
| "acceptedCreations f (_ # es) = acceptedCreations f es"

fun matchingDestructions :: "(TargetInfo \<Rightarrow> bool) \<Rightarrow> string set \<Rightarrow> event list \<Rightarrow> nat" where
  "matchingDestructions f acc [] = 0"
| "matchingDestructions f acc (TargetCreatedEvent info # es) =
     matchingDestructions f (if f info then insert (targetId info) acc else acc) es"
| "matchingDestructions f acc (TargetDestroyedEvent tid # es) =
     (if tid \<in> acc then 1 else 0) + matchingDestructions f acc es"
| "matchingDestructions f acc (_ # es) = matchingDestructions f acc es"

text \<open>Every registered target is stored under the id of its own target info.\<close>

definition registryKeyedById :: "Browser \<Rightarrow> bool" where
  "registryKeyedById b = list_all (\<lambda>(k, t). targetId (targetInfo t) = k) (targets b)"

text \<open>Every registered context is stored under its own id.\<close>

definition contextsKeyedById :: "Browser \<Rightarrow> bool" where
  "contextsKeyedById b = list_all (\<lambda>(k, ctx). ctx = Some k) (contexts b)"

text \<open>
  The targets the listeners of \<^verbatim>\<open>waitForTarget\<close> are called with: those of the
  \<open>TargetCreated\<close> and \<open>TargetChanged\<close> emissions of the browser, in order.
\<close>

fun delivered :: "happening list \<Rightarrow> Target list" where
  "delivered [] = []"
| "delivered (Emission (Emit OnBrowser TargetCreated target) # hs) = target # delivered hs"
| "delivered (Emission (Emit OnBrowser TargetChanged target) # hs) = target # delivered hs"
| "delivered (_ # hs) = delivered hs"

section \<open>Sample inputs\<close>

text \<open>
  A page and a service worker as the protocol announces them, a target filter that
  attaches to pages only, and a browser with the page registered and initialized.
\<close>

definition page_t1 :: TargetInfo where
  "page_t1 = \<lparr>targetId = ''t1'', type = ''page'', url = ''about:blank'', browserContextId = None\<rparr>"

definition worker_t2 :: TargetInfo where
  "worker_t2 = \<lparr>targetId = ''t2'', type = ''service_worker'', url = ''https://a.com/sw.js'',
                 browserContextId = None\<rparr>"

definition pagesOnly :: "TargetInfo \<Rightarrow> bool" where
  "pagesOnly info = (type info = ''page'')"

definition target_t1 :: Target where
  "target_t1 = \<lparr>targetInfo = page_t1, browserContext = defaultContext, initialization = Success,
                 isClosed = False\<rparr>"

definition browser_t1 :: Browser where
  "browser_t1 = run (Browser_new [] None None)
                  [TargetCreatedEvent page_t1, TargetInitializedEvent ''t1'' True]"

section \<open>Association lists and the handlers' effect on the registry\<close>

lemma map_of_Some_key: "map_of al k = Some v \<Longrightarrow> k \<in> fst ` set al"
  by (metis map_of_eq_None_iff option.distinct(1))

lemma update_fresh: "map_of al k = None \<Longrightarrow> AList.update k v al = al @ [(k, v)]"
  by (induction al) (auto split: if_splits)

lemma resolveContext_Some: "resolveContext b info \<noteq> None"
  by (simp add: resolveContext_def split: option.split)

lemma set_update_subset: "set (AList.update k v al) \<subseteq> insert (k, v) (set al)"
  by (induction al) auto

lemma set_delete_subset: "set (AList.delete k al) \<subseteq> set al"
  by (induction al) auto

lemma length_delete_distinct:
  "distinct (map fst al) \<Longrightarrow> k \<in> fst ` set al \<Longrightarrow> Suc (length (AList.delete k al)) = length al"
  by (induction al) (auto simp: rev_image_eqI)

lemma delete_keys_set:
  "distinct (map fst al) \<Longrightarrow> fst ` set (AList.delete k al) = fst ` set al - {k}"
  by (induction al) (auto simp: rev_image_eqI)

lemma same_keys:
  assumes "map fst ts = map fst al"
  shows "length ts = length al" and "fst ` set ts = fst ` set al"
    and "distinct (map fst ts) = distinct (map fst al)"
proof -
  from assms have "length (map fst ts) = length (map fst al)" by simp
  then show "length ts = length al" by simp
  from assms have "set (map fst ts) = set (map fst al)" by simp
  then show "fst ` set ts = fst ` set al" by simp
  from assms show "distinct (map fst ts) = distinct (map fst al)" by simp
qed

lemma handled_targetCreated:
  "handled b (TargetCreatedEvent info) =
     (if \<not> targetFilterCallback b info
      then b\<lparr>ignoredTargets := insert (targetId info) (ignoredTargets b)\<rparr>
      else if map_of (targets b) (targetId info) \<noteq> None then b
      else b\<lparr>targets := targets b @
              [(targetId info, Target_new info (the (resolveContext b info)))]\<rparr>)"
  using resolveContext_Some[of b info]
  by (auto simp: handled_def targetCreated_def update_fresh split: option.split)

lemma handled_targetDestroyed:
  "handled b (TargetDestroyedEvent tid) =
     (if tid \<in> ignoredTargets b \<or> map_of (targets b) tid = None then b
      else b\<lparr>targets := AList.delete tid (targets b)\<rparr>)"
  by (auto simp: handled_def targetDestroyed_def Let_def split: option.split)

lemma handled_targetInfoChanged:
  "\<exists>ts. handled b (TargetInfoChangedEvent info) = b\<lparr>targets := ts\<rparr>
        \<and> map fst ts = map fst (targets b)"
proof (cases "targetId info \<in> ignoredTargets b \<or> map_of (targets b) (targetId info) = None")
  case True
  then have "handled b (TargetInfoChangedEvent info) = b\<lparr>targets := targets b\<rparr>"
    by (auto simp: handled_def targetInfoChanged_def)
  then show ?thesis by blast
next
  case False
  then obtain t where t: "map_of (targets b) (targetId info) = Some t" by auto
  from False t have "handled b (TargetInfoChangedEvent info) =
      b\<lparr>targets := AList.update (targetId info) (Target_targetInfoChanged t info) (targets b)\<rparr>"
    by (simp add: handled_def targetInfoChanged_def Let_def)
  moreover have "map fst (AList.update (targetId info) (Target_targetInfoChanged t info) (targets b))
      = map fst (targets b)"
    using map_of_Some_key[OF t] by (simp add: update_keys)
  ultimately show ?thesis by blast
qed

lemma handled_initialized:
  "\<exists>ts. handled b (TargetInitializedEvent tid success) = b\<lparr>targets := ts\<rparr>
        \<and> map fst ts = map fst (targets b)"
proof (cases "map_of (targets b) tid")
  case None
  then have "handled b (TargetInitializedEvent tid success) = b\<lparr>targets := targets b\<rparr>"
    by (simp add: handled_def targetInitialized_def)
  then show ?thesis by blast
next
  case (Some t)
  show ?thesis
  proof (cases "initialization t = Pending")
    case False
    with Some have "handled b (TargetInitializedEvent tid success) = b\<lparr>targets := targets b\<rparr>"
      by (simp add: handled_def targetInitialized_def)
    then show ?thesis by blast
  next
    case True
    with Some have "handled b (TargetInitializedEvent tid success) =
        b\<lparr>targets := AList.update tid (Target_initializedCallback t success) (targets b)\<rparr>"
      by (simp add: handled_def targetInitialized_def Let_def)
    moreover have "map fst (AList.update tid (Target_initializedCallback t success) (targets b))
        = map fst (targets b)"
      using map_of_Some_key[OF Some] by (simp add: update_keys)
    ultimately show ?thesis by blast
  qed
qed

lemma handled_filter: "targetFilterCallback (handled b e) = targetFilterCallback b"
proof (cases e)
  case (TargetCreatedEvent info)
  then show ?thesis by (simp add: handled_targetCreated)
next
  case (TargetDestroyedEvent tid)
  then show ?thesis by (simp add: handled_targetDestroyed)
next
  case (TargetInfoChangedEvent info)
  with handled_targetInfoChanged[of b info] show ?thesis by auto
next
  case (TargetInitializedEvent tid success)
  with handled_initialized[of b tid success] show ?thesis by auto
qed

lemma dispatch_error_unchanged:
  assumes "fst (dispatch b e) = Some err"
  shows "handled b e = b"
proof (cases e)
  case (TargetCreatedEvent info)
  with assms show ?thesis
    by (auto simp: handled_def targetCreated_def split: option.splits if_splits)
next
  case (TargetDestroyedEvent tid)
  with assms show ?thesis
    by (auto simp: handled_def targetDestroyed_def Let_def split: option.splits if_splits)
next
  case (TargetInfoChangedEvent info)
  with assms show ?thesis
    by (auto simp: handled_def targetInfoChanged_def Let_def split: option.splits if_splits)
next
  case (TargetInitializedEvent tid success)
  with assms show ?thesis
    by (auto simp: handled_def targetInitialized_def Let_def split: option.splits if_splits)
qed

lemma registry_count:
  "distinct (map fst (targets b)) \<Longrightarrow> fst ` set (targets b) \<subseteq> acc \<Longrightarrow>
   acc \<inter> ignoredTargets b = {} \<Longrightarrow>
   distinct (createdIds evs) \<Longrightarrow> set (createdIds evs) \<inter> (acc \<union> ignoredTargets b) = {} \<Longrightarrow>
   distinct (destroyedIds evs) \<Longrightarrow>
   set (destroyedIds evs) \<inter> (acc - fst ` set (targets b)) = {} \<Longrightarrow>
   length (targets (run b evs)) + matchingDestructions (targetFilterCallback b) acc evs
     = length (targets b) + acceptedCreations (targetFilterCallback b) evs
   \<and> distinct (map fst (targets (run b evs)))"
proof (induction evs arbitrary: b acc)
  case Nil
  then show ?case by simp
next
  case (Cons e es)
  let ?f = "targetFilterCallback b"
  have filt: "targetFilterCallback (handled b e) = ?f" by (rule handled_filter)
  show ?case
  proof (cases e)
    case (TargetCreatedEvent info)
    let ?tid = "targetId info"
    from Cons.prems TargetCreatedEvent have
      fresh: "?tid \<notin> acc" "?tid \<notin> ignoredTargets b" "?tid \<notin> set (createdIds es)"
      and dc: "distinct (createdIds es)"
      and cc: "set (createdIds es) \<inter> (acc \<union> ignoredTargets b) = {}"
      and dd: "distinct (destroyedIds es)"
      and dk: "set (destroyedIds es) \<inter> (acc - fst ` set (targets b)) = {}"
      by auto
    from fresh Cons.prems(2) have nokey: "?tid \<notin> fst ` set (targets b)" by blast
    then have none: "map_of (targets b) ?tid = None" by (simp add: map_of_eq_None_iff)
    show ?thesis
    proof (cases "?f info")
      case False
      then have h: "handled b e = b\<lparr>ignoredTargets := insert ?tid (ignoredTargets b)\<rparr>"
        using TargetCreatedEvent by (simp add: handled_targetCreated)
      have "length (targets (run (handled b e) es))
            + matchingDestructions (targetFilterCallback (handled b e)) acc es
          = length (targets (handled b e)) + acceptedCreations (targetFilterCallback (handled b e)) es
          \<and> distinct (map fst (targets (run (handled b e) es)))"
      proof (rule Cons.IH)
        show "distinct (map fst (targets (handled b e)))" using Cons.prems(1) h by simp
        show "fst ` set (targets (handled b e)) \<subseteq> acc" using Cons.prems(2) h by simp
        show "acc \<inter> ignoredTargets (handled b e) = {}" using Cons.prems(3) fresh h by simp
        show "distinct (createdIds es)" by (rule dc)
        show "set (createdIds es) \<inter> (acc \<union> ignoredTargets (handled b e)) = {}"
          using cc fresh h by auto
        show "distinct (destroyedIds es)" by (rule dd)
        show "set (destroyedIds es) \<inter> (acc - fst ` set (targets (handled b e))) = {}"
          using dk h by simp
      qed
      with False TargetCreatedEvent h filt show ?thesis by simp
    next
      case True
      then obtain t where
        h: "handled b e = b\<lparr>targets := targets b @ [(?tid, t)]\<rparr>"
        using TargetCreatedEvent none by (simp add: handled_targetCreated)
      have "length (targets (run (handled b e) es))
            + matchingDestructions (targetFilterCallback (handled b e)) (insert ?tid acc) es
          = length (targets (handled b e)) + acceptedCreations (targetFilterCallback (handled b e)) es
          \<and> distinct (map fst (targets (run (handled b e) es)))"
      proof (rule Cons.IH)
        show "distinct (map fst (targets (handled b e)))" using Cons.prems(1) nokey h by simp
        show "fst ` set (targets (handled b e)) \<subseteq> insert ?tid acc"
          using Cons.prems(2) h by auto
        show "insert ?tid acc \<inter> ignoredTargets (handled b e) = {}"
          using Cons.prems(3) fresh h by simp
        show "distinct (createdIds es)" by (rule dc)
        show "set (createdIds es) \<inter> (insert ?tid acc \<union> ignoredTargets (handled b e)) = {}"
          using cc fresh h by auto
        show "distinct (destroyedIds es)" by (rule dd)
        show "set (destroyedIds es) \<inter> (insert ?tid acc - fst ` set (targets (handled b e))) = {}"
          using dk h by auto
      qed
      with True TargetCreatedEvent h filt show ?thesis by simp
    qed
  next
    case (TargetDestroyedEvent tid)
    from Cons.prems TargetDestroyedEvent have
      fresh: "tid \<notin> set (destroyedIds es)" "tid \<notin> acc - fst ` set (targets b)"
      and dc: "distinct (createdIds es)"
      and cc: "set (createdIds es) \<inter> (acc \<union> ignoredTargets b) = {}"
      and dd: "distinct (destroyedIds es)"
      and dk: "set (destroyedIds es) \<inter> (acc - fst ` set (targets b)) = {}"
      by auto
    show ?thesis
    proof (cases "tid \<in> ignoredTargets b \<or> map_of (targets b) tid = None")
      case True
      then have h: "handled b e = b"
        using TargetDestroyedEvent by (simp add: handled_targetDestroyed)
      from True fresh Cons.prems(3) have notacc: "tid \<notin> acc"
        by (auto simp: map_of_eq_None_iff)
      have "length (targets (run b es)) + matchingDestructions ?f acc es
          = length (targets b) + acceptedCreations ?f es
          \<and> distinct (map fst (targets (run b es)))"
        using Cons.prems(1,2,3) dc cc dd dk by (rule Cons.IH)
      with notacc TargetDestroyedEvent h show ?thesis by simp
    next
      case False
      then have key: "tid \<in> fst ` set (targets b)" by (auto simp: map_of_eq_None_iff)
      with Cons.prems(2) have inacc: "tid \<in> acc" by blast
      from False have h: "handled b e = b\<lparr>targets := AList.delete tid (targets b)\<rparr>"
        using TargetDestroyedEvent by (auto simp: handled_targetDestroyed)
      have len: "Suc (length (targets (handled b e))) = length (targets b)"
        using h length_delete_distinct[OF Cons.prems(1) key] by simp
      have keys: "fst ` set (targets (handled b e)) = fst ` set (targets b) - {tid}"
        using h delete_keys_set[OF Cons.prems(1)] by simp
      have "length (targets (run (handled b e) es))
            + matchingDestructions (targetFilterCallback (handled b e)) acc es
          = length (targets (handled b e)) + acceptedCreations (targetFilterCallback (handled b e)) es
          \<and> distinct (map fst (targets (run (handled b e) es)))"
      proof (rule Cons.IH)
        show "distinct (map fst (targets (handled b e)))"
          using Cons.prems(1) h by (simp add: distinct_delete)
        show "fst ` set (targets (handled b e)) \<subseteq> acc" using Cons.prems(2) keys by blast
        show "acc \<inter> ignoredTargets (handled b e) = {}" using Cons.prems(3) h by simp
        show "distinct (createdIds es)" by (rule dc)
        show "set (createdIds es) \<inter> (acc \<union> ignoredTargets (handled b e)) = {}"
          using cc h by simp
        show "distinct (destroyedIds es)" by (rule dd)
        show "set (destroyedIds es) \<inter> (acc - fst ` set (targets (handled b e))) = {}"
          using dk fresh keys by auto
      qed
      with inacc TargetDestroyedEvent len filt show ?thesis by simp
    qed
  next
    case (TargetInfoChangedEvent info)
    from handled_targetInfoChanged[of b info] TargetInfoChangedEvent obtain ts where
      h: "handled b e = b\<lparr>targets := ts\<rparr>" and k: "map fst ts = map fst (targets b)"
      by auto
    have "length (targets (run (handled b e) es))
          + matchingDestructions (targetFilterCallback (handled b e)) acc es
        = length (targets (handled b e)) + acceptedCreations (targetFilterCallback (handled b e)) es
        \<and> distinct (map fst (targets (run (handled b e) es)))"
    proof (rule Cons.IH)
      show "distinct (map fst (targets (handled b e)))" using Cons.prems(1) h k by simp
      show "fst ` set (targets (handled b e)) \<subseteq> acc"
        using Cons.prems(2) h same_keys(2)[OF k] by simp
      show "acc \<inter> ignoredTargets (handled b e) = {}" using Cons.prems(3) h by simp
      show "distinct (createdIds es)" using Cons.prems(4) TargetInfoChangedEvent by simp
      show "set (createdIds es) \<inter> (acc \<union> ignoredTargets (handled b e)) = {}"
        using Cons.prems(5) TargetInfoChangedEvent h by simp
      show "distinct (destroyedIds es)" using Cons.prems(6) TargetInfoChangedEvent by simp
      show "set (destroyedIds es) \<inter> (acc - fst ` set (targets (handled b e))) = {}"
        using Cons.prems(7) TargetInfoChangedEvent h same_keys(2)[OF k] by simp
    qed
    with TargetInfoChangedEvent h filt same_keys(1)[OF k] show ?thesis by simp
  next
    case (TargetInitializedEvent tid success)
    from handled_initialized[of b tid success] TargetInitializedEvent obtain ts where
      h: "handled b e = b\<lparr>targets := ts\<rparr>" and k: "map fst ts = map fst (targets b)"
      by auto
    have "length (targets (run (handled b e) es))
          + matchingDestructions (targetFilterCallback (handled b e)) acc es
        = length (targets (handled b e)) + acceptedCreations (targetFilterCallback (handled b e)) es
        \<and> distinct (map fst (targets (run (handled b e) es)))"
    proof (rule Cons.IH)
      show "distinct (map fst (targets (handled b e)))" using Cons.prems(1) h k by simp
      show "fst ` set (targets (handled b e)) \<subseteq> acc"
        using Cons.prems(2) h same_keys(2)[OF k] by simp
      show "acc \<inter> ignoredTargets (handled b e) = {}" using Cons.prems(3) h by simp
      show "distinct (createdIds es)" using Cons.prems(4) TargetInitializedEvent by simp
      show "set (createdIds es) \<inter> (acc \<union> ignoredTargets (handled b e)) = {}"
        using Cons.prems(5) TargetInitializedEvent h by simp
      show "distinct (destroyedIds es)" using Cons.prems(6) TargetInitializedEvent by simp
      show "set (destroyedIds es) \<inter> (acc - fst ` set (targets (handled b e))) = {}"
        using Cons.prems(7) TargetInitializedEvent h same_keys(2)[OF k] by simp
    qed
    with TargetInitializedEvent h filt same_keys(1)[OF k] show ?thesis by simp
  qed
qed

lemma keyed_iff: "registryKeyedById b = (\<forall>(k, t) \<in> set (targets b). targetId (targetInfo t) = k)"
  by (simp add: registryKeyedById_def list_all_iff)

lemma handled_ignored_mono: "tid \<in> ignoredTargets b \<Longrightarrow> tid \<in> ignoredTargets (handled b e)"
proof (cases e)
  case (TargetCreatedEvent info)
  assume "tid \<in> ignoredTargets b"
  with TargetCreatedEvent show ?thesis by (simp add: handled_targetCreated)
next
  case (TargetDestroyedEvent d)
  assume "tid \<in> ignoredTargets b"
  with TargetDestroyedEvent show ?thesis by (simp add: handled_targetDestroyed)
next
  case (TargetInfoChangedEvent info)
  assume "tid \<in> ignoredTargets b"
  with TargetInfoChangedEvent handled_targetInfoChanged[of b info] show ?thesis by auto
next
  case (TargetInitializedEvent i s)
  assume "tid \<in> ignoredTargets b"
  with TargetInitializedEvent handled_initialized[of b i s] show ?thesis by auto
qed

lemma run_ignored_mono: "tid \<in> ignoredTargets b \<Longrightarrow> tid \<in> ignoredTargets (run b evs)"
  by (induction evs arbitrary: b) (simp_all add: handled_ignored_mono)

lemma handled_unregistered:
  assumes "map_of (targets b) tid = None" and "tid \<notin> set (createdIds [e])"
  shows "map_of (targets (handled b e)) tid = None"
proof (cases e)
  case (TargetCreatedEvent info)
  with assms show ?thesis by (simp add: handled_targetCreated)
next
  case (TargetDestroyedEvent d)
  with assms show ?thesis by (simp add: handled_targetDestroyed delete_conv')
next
  case (TargetInfoChangedEvent info)
  from handled_targetInfoChanged[of b info] obtain ts where
    h: "handled b (TargetInfoChangedEvent info) = b\<lparr>targets := ts\<rparr>"
    and k: "map fst ts = map fst (targets b)" by auto
  from assms(1) have "tid \<notin> fst ` set (targets b)" by (simp add: map_of_eq_None_iff)
  with same_keys(2)[OF k] have "tid \<notin> fst ` set ts" by simp
  with h TargetInfoChangedEvent show ?thesis by (simp add: map_of_eq_None_iff)
next
  case (TargetInitializedEvent i s)
  from handled_initialized[of b i s] obtain ts where
    h: "handled b (TargetInitializedEvent i s) = b\<lparr>targets := ts\<rparr>"
    and k: "map fst ts = map fst (targets b)" by auto
  from assms(1) have "tid \<notin> fst ` set (targets b)" by (simp add: map_of_eq_None_iff)
  with same_keys(2)[OF k] have "tid \<notin> fst ` set ts" by simp
  with h TargetInitializedEvent show ?thesis by (simp add: map_of_eq_None_iff)
qed

lemma createdIds_Cons: "set (createdIds (e # es)) = set (createdIds [e]) \<union> set (createdIds es)"
  by (cases e) simp_all

lemma run_unregistered:
  "map_of (targets b) tid = None \<Longrightarrow> tid \<notin> set (createdIds evs) \<Longrightarrow>
   map_of (targets (run b evs)) tid = None"
proof (induction evs arbitrary: b)
  case Nil
  then show ?case by simp
next
  case (Cons e es)
  from Cons.prems(2) have a: "tid \<notin> set (createdIds [e])" and r: "tid \<notin> set (createdIds es)"
    by (simp_all add: createdIds_Cons[of e es])
  from Cons.IH[OF handled_unregistered[OF Cons.prems(1) a] r] show ?case by simp
qed

lemma handled_keyed:
  assumes "registryKeyedById b"
  shows "registryKeyedById (handled b e)"
proof (cases e)
  case (TargetCreatedEvent info)
  with assms show ?thesis
    by (auto simp: handled_targetCreated keyed_iff Target_new_def)
next
  case (TargetDestroyedEvent d)
  with assms set_delete_subset[of d "targets b"] show ?thesis
    by (auto simp: handled_targetDestroyed keyed_iff)
next
  case (TargetInfoChangedEvent info)
  show ?thesis
  proof (cases "targetId info \<in> ignoredTargets b \<or> map_of (targets b) (targetId info) = None")
    case True
    with assms TargetInfoChangedEvent show ?thesis
      by (auto simp: handled_def targetInfoChanged_def registryKeyedById_def)
  next
    case False
    then obtain t where t: "map_of (targets b) (targetId info) = Some t" by auto
    from False t have h: "handled b (TargetInfoChangedEvent info) =
        b\<lparr>targets := AList.update (targetId info) (Target_targetInfoChanged t info) (targets b)\<rparr>"
      by (simp add: handled_def targetInfoChanged_def Let_def)
    from assms set_update_subset[of "targetId info" "Target_targetInfoChanged t info" "targets b"]
    show ?thesis unfolding TargetInfoChangedEvent h
      by (auto simp: keyed_iff Target_targetInfoChanged_def)
  qed
next
  case (TargetInitializedEvent i s)
  show ?thesis
  proof (cases "map_of (targets b) i")
    case None
    with assms TargetInitializedEvent show ?thesis
      by (simp add: handled_def targetInitialized_def registryKeyedById_def)
  next
    case (Some t)
    show ?thesis
    proof (cases "initialization t = Pending")
      case False
      with Some assms TargetInitializedEvent show ?thesis
        by (simp add: handled_def targetInitialized_def registryKeyedById_def)
    next
      case True
      with Some have h: "handled b (TargetInitializedEvent i s) =
          b\<lparr>targets := AList.update i (Target_initializedCallback t s) (targets b)\<rparr>"
        by (simp add: handled_def targetInitialized_def Let_def)
      from Some have "(i, t) \<in> set (targets b)" by (rule map_of_SomeD)
      with assms have "targetId (targetInfo t) = i" by (auto simp: keyed_iff)
      with assms set_update_subset[of i "Target_initializedCallback t s" "targets b"]
      show ?thesis unfolding TargetInitializedEvent h
        by (auto simp: keyed_iff Target_initializedCallback_def)
    qed
  qed
qed

lemma run_keyed: "registryKeyedById b \<Longrightarrow> registryKeyedById (run b evs)"
  by (induction evs arbitrary: b) (simp_all add: handled_keyed)

lemma unregistered_not_in_targets:
  assumes "registryKeyedById b" and "map_of (targets b) tid = None"
  shows "\<forall>t \<in> set (Browser_targets b). targetId (targetInfo t) \<noteq> tid"
proof
  fix t assume "t \<in> set (Browser_targets b)"
  then obtain k where kt: "(k, t) \<in> set (targets b)"
    by (auto simp: Browser_targets_def)
  with assms(1) have "targetId (targetInfo t) = k" by (auto simp: keyed_iff)
  moreover from kt have "k \<in> fst ` set (targets b)" by (simp add: rev_image_eqI)
  moreover from assms(2) have "tid \<notin> fst ` set (targets b)" by (simp add: map_of_eq_None_iff)
  ultimately show "targetId (targetInfo t) \<noteq> tid" by auto
qed

lemma browser_t1_eq:
  "browser_t1 = (Browser_new [] None None)\<lparr>targets := [(''t1'', target_t1)]\<rparr>"
  by (simp add: browser_t1_def target_t1_def page_t1_def Browser_new_def handled_def
      targetCreated_def targetInitialized_def resolveContext_def Target_new_def
      Target_initializedCallback_def Target_initializedPromise_def Let_def)

lemma browser_t1_targets: "targets browser_t1 = [(''t1'', target_t1)]"
  by (simp add: browser_t1_eq)

lemma createdIds_append: "createdIds (xs @ ys) = createdIds xs @ createdIds ys"
  by (induction xs rule: createdIds.induct) simp_all

lemma destroyedIds_append: "destroyedIds (xs @ ys) = destroyedIds xs @ destroyedIds ys"
  by (induction xs rule: destroyedIds.induct) simp_all

lemma uniqueIds_take:
  assumes "uniqueIds evs"
  shows "uniqueIds (take n evs)"
proof -
  have "createdIds evs = createdIds (take n evs) @ createdIds (drop n evs)"
    using createdIds_append[of "take n evs" "drop n evs"] by simp
  moreover have "destroyedIds evs = destroyedIds (take n evs) @ destroyedIds (drop n evs)"
    using destroyedIds_append[of "take n evs" "drop n evs"] by simp
  ultimately show ?thesis using assms by (simp add: uniqueIds_def)
qed

lemma registry_count_new:
  assumes "uniqueIds evs"
  shows "length (targets (run (Browser_new contextIds targetFilter isPageTarget) evs))
         + matchingDestructions
             (targetFilterCallback (Browser_new contextIds targetFilter isPageTarget)) {} evs
       = acceptedCreations
             (targetFilterCallback (Browser_new contextIds targetFilter isPageTarget)) evs
     \<and> distinct (map fst (targets (run (Browser_new contextIds targetFilter isPageTarget) evs)))"
proof -
  let ?b = "Browser_new contextIds targetFilter isPageTarget"
  have t: "targets ?b = []" and i: "ignoredTargets ?b = {}"
    by (simp_all add: Browser_new_def)
  have "length (targets (run ?b evs)) + matchingDestructions (targetFilterCallback ?b) {} evs
      = length (targets ?b) + acceptedCreations (targetFilterCallback ?b) evs
      \<and> distinct (map fst (targets (run ?b evs)))"
  proof (rule registry_count)
    show "distinct (map fst (targets ?b))" by (simp add: t)
    show "fst ` set (targets ?b) \<subseteq> {}" by (simp add: t)
    show "{} \<inter> ignoredTargets ?b = {}" by simp
    show "distinct (createdIds evs)" using assms by (simp add: uniqueIds_def)
    show "set (createdIds evs) \<inter> ({} \<union> ignoredTargets ?b) = {}" by (simp add: i)
    show "distinct (destroyedIds evs)" using assms by (simp add: uniqueIds_def)
    show "set (destroyedIds evs) \<inter> ({} - fst ` set (targets ?b)) = {}" by simp
  qed
  then show ?thesis by (simp add: t)
qed

section \<open>Permissions and waiting: auxiliary facts\<close>

lemma token_nonempty:
  "map_of WEB_PERMISSION_TO_PROTOCOL_PERMISSION p = Some t \<Longrightarrow> t \<noteq> []"
  by (auto simp: WEB_PERMISSION_TO_PROTOCOL_PERMISSION_def split: if_splits)

lemma protocolPermission_Some:
  "map_of WEB_PERMISSION_TO_PROTOCOL_PERMISSION p = Some t \<Longrightarrow> protocolPermission p = Inr t"
  using token_nonempty[of p t] by (simp add: protocolPermission_def)

lemma protocolPermission_None:
  "map_of WEB_PERMISSION_TO_PROTOCOL_PERMISSION p = None \<Longrightarrow>
   protocolPermission p = Inl (UnknownPermissionError (''Unknown permission: '' @ p))"
  by (simp add: protocolPermission_def)

lemma protocolPermissions_all_known:
  "\<forall>p \<in> set ps. map_of WEB_PERMISSION_TO_PROTOCOL_PERMISSION p \<noteq> None \<Longrightarrow>
   protocolPermissions ps = Inr (map (\<lambda>p. the (map_of WEB_PERMISSION_TO_PROTOCOL_PERMISSION p)) ps)"
proof (induction ps)
  case Nil
  show ?case by simp
next
  case (Cons p ps)
  from Cons.prems obtain t where t: "map_of WEB_PERMISSION_TO_PROTOCOL_PERMISSION p = Some t"
    by auto
  from Cons have "protocolPermissions ps =
      Inr (map (\<lambda>p. the (map_of WEB_PERMISSION_TO_PROTOCOL_PERMISSION p)) ps)"
    by simp
  with t show ?case by (simp add: protocolPermission_Some)
qed

lemma protocolPermissions_unknown:
  "\<exists>p \<in> set ps. map_of WEB_PERMISSION_TO_PROTOCOL_PERMISSION p = None \<Longrightarrow>
   \<exists>p \<in> set ps. map_of WEB_PERMISSION_TO_PROTOCOL_PERMISSION p = None \<and>
     protocolPermissions ps = Inl (UnknownPermissionError (''Unknown permission: '' @ p))"
proof (induction ps)
  case Nil
  then show ?case by simp
next
  case (Cons q ps)
  show ?case
  proof (cases "map_of WEB_PERMISSION_TO_PROTOCOL_PERMISSION q")
    case None
    then show ?thesis by (simp add: protocolPermission_None)
  next
    case (Some t)
    with Cons.prems have "\<exists>p \<in> set ps. map_of WEB_PERMISSION_TO_PROTOCOL_PERMISSION p = None"
      by auto
    from Cons.IH[OF this] Some show ?thesis
      by (auto simp: protocolPermission_Some)
  qed
qed

lemma awaitTargetPromise_resolved:
  "targetPromise w = Some t \<Longrightarrow> awaitTargetPromise predicate w hs = Fulfilled t"
  by (cases hs) simp_all

lemma awaitTargetPromise_find:
  "targetPromise w = None \<Longrightarrow> \<not> isResolved w \<Longrightarrow>
   awaitTargetPromise predicate w hs =
     (case find predicate (delivered hs) of None \<Rightarrow> Unsettled | Some t \<Rightarrow> Fulfilled t)"
proof (induction hs arbitrary: w rule: delivered.induct)
  case 1
  then show ?case by simp
next
  case (2 target hs)
  then show ?case
    by (cases "predicate target") (simp_all add: check_def awaitTargetPromise_resolved)
next
  case (3 target hs)
  then show ?case
    by (cases "predicate target") (simp_all add: check_def awaitTargetPromise_resolved)
qed simp_all

lemma find_Some_set: "find P xs = Some x \<Longrightarrow> x \<in> set xs \<and> P x"
  by (induction xs) (auto split: if_splits)

lemma waitForTarget_timeout0_find:
  "waitForTarget b predicate 0 hs =
     (case find predicate (delivered hs) of None \<Rightarrow> Unsettled | Some t \<Rightarrow> Fulfilled t)"
  by (simp add: waitForTarget_def awaitTargetPromise_find)

section \<open>The claims\<close>

text \<open>
  C1, as amended. A \<^verbatim>\<open>targetCreated\<close> event whose browser-context id is not in the
  context registry does not raise: the handler resolves the default context, never
  throws for a missing context, and, when the filter accepts the target and its id is
  new, registers the target under the default context.
\<close>

theorem targetCreated_unknown_context_uses_default:
  assumes "browserContextId info = Some c" and "map_of (contexts b) c = None"
  shows "resolveContext b info = Some defaultContext
     \<and> fst (targetCreated b info) \<noteq> Some (ConsistencyError ''Missing browser context'')
     \<and> (targetFilterCallback b info \<and> map_of (targets b) (targetId info) = None \<longrightarrow>
          targetCreated b info =
            (None, b\<lparr>targets := targets b @ [(targetId info, Target_new info defaultContext)]\<rparr>, []))"
proof -
  have r: "resolveContext b info = Some defaultContext"
    using assms by (simp add: resolveContext_def)
  show ?thesis
    by (simp add: targetCreated_def r update_fresh)
qed

text \<open>The page \<open>t1\<close> of the context \<open>ctx1\<close>, at a browser that knows the context \<open>ctx0\<close> only.\<close>

theorem targetCreated_unknown_context_uses_default_witness:
  "browserContextId (page_t1\<lparr>browserContextId := Some ''ctx1''\<rparr>) = Some ''ctx1''
   \<and> map_of (contexts (Browser_new [''ctx0''] None None)) ''ctx1'' = None
   \<and> targetFilterCallback (Browser_new [''ctx0''] None None)
         (page_t1\<lparr>browserContextId := Some ''ctx1''\<rparr>)
   \<and> map_of (targets (Browser_new [''ctx0''] None None))
         (targetId (page_t1\<lparr>browserContextId := Some ''ctx1''\<rparr>)) = None
   \<and> fst (targetCreated (Browser_new [''ctx0''] None None)
              (page_t1\<lparr>browserContextId := Some ''ctx1''\<rparr>)) = None
   \<and> map (browserContext \<circ> snd)
         (targets (fst (snd (targetCreated (Browser_new [''ctx0''] None None)
              (page_t1\<lparr>browserContextId := Some ''ctx1''\<rparr>))))) = [defaultContext]"
  using targetCreated_unknown_context_uses_default[of
      "page_t1\<lparr>browserContextId := Some ''ctx1''\<rparr>" "''ctx1''" "Browser_new [''ctx0''] None None"]
  by (simp add: page_t1_def Browser_new_def Target_new_def)

text \<open>
  The scenario of the specification: a browser without contexts receives
  \<^verbatim>\<open>targetCreated\<close> for the page \<open>t1\<close> of the unknown context \<open>ctx1\<close>. No error is
  raised; the target is registered, owned by the default context.
\<close>

theorem targetCreated_unknown_context_counterexample:
  "targetCreated (Browser_new [] None None)
     \<lparr>targetId = ''t1'', type = ''page'', url = ''about:blank'', browserContextId = Some ''ctx1''\<rparr>
   = (None,
      (Browser_new [] None None)\<lparr>targets :=
         [(''t1'', \<lparr>targetInfo = \<lparr>targetId = ''t1'', type = ''page'', url = ''about:blank'',
                                  browserContextId = Some ''ctx1''\<rparr>,
                   browserContext = defaultContext, initialization = Pending, isClosed = False\<rparr>)]\<rparr>,
      [])"
  by (simp add: targetCreated_def Browser_new_def resolveContext_def Target_new_def)

text \<open>
  C2, at the failing input. The registry holds the initialized page \<open>t1\<close>, which
  \<^verbatim>\<open>targets()\<close> returns, and the predicate holds for every target. With a timeout of 0
  the call is still unsettled when nothing further happens, and stays so when time
  passes; with the default timeout the same call is fulfilled with \<open>t1\<close> at once.
\<close>

theorem waitForTarget_timeout0_skips_registered_targets:
  "Browser_targets browser_t1 = [target_t1]
   \<and> waitForTarget browser_t1 (\<lambda>t. True) 0 [] = Unsettled
   \<and> waitForTarget browser_t1 (\<lambda>t. True) 0 [TimerFired] = Unsettled
   \<and> waitForTarget browser_t1 (\<lambda>t. True) 30000 [] = Fulfilled target_t1"
  by (simp add: Browser_targets_def browser_t1_targets waitForTarget_def check_def
      Target_isInitialized_def target_t1_def)

text \<open>
  C3, as amended. From a new browser, after any number \<open>n\<close> of the events of a sequence
  with unique ids, the size of the target registry is the number of creations the
  filter accepted so far minus the number of destructions so far that match an earlier
  accepted creation, and no id is registered twice. A \<^verbatim>\<open>targetCreated\<close> for an id that is
  already registered is the fatal error of the assertion when the filter accepts the
  event; it leaves the browser as it was.
\<close>

theorem registry_size_is_accepted_minus_destroyed:
  "(uniqueIds evs \<longrightarrow>
      length (targets (run (Browser_new contextIds targetFilter isPageTarget) (take n evs)))
        = acceptedCreations
            (targetFilterCallback (Browser_new contextIds targetFilter isPageTarget)) (take n evs)
          - matchingDestructions
            (targetFilterCallback (Browser_new contextIds targetFilter isPageTarget)) {} (take n evs)
      \<and> matchingDestructions
            (targetFilterCallback (Browser_new contextIds targetFilter isPageTarget)) {} (take n evs)
          \<le> acceptedCreations
            (targetFilterCallback (Browser_new contextIds targetFilter isPageTarget)) (take n evs)
      \<and> distinct (map fst
            (targets (run (Browser_new contextIds targetFilter isPageTarget) (take n evs)))))
   \<and> (map_of (targets b) (targetId info) \<noteq> None \<and> targetFilterCallback b info \<longrightarrow>
        targetCreated b info =
          (Some (ConsistencyError ''Target should not exist before targetCreated''), b, []))"
proof (intro conjI impI)
  assume "uniqueIds evs"
  then have u: "uniqueIds (take n evs)" by (rule uniqueIds_take)
  let ?b = "Browser_new contextIds targetFilter isPageTarget"
  from registry_count_new[OF u, of contextIds targetFilter isPageTarget]
  have eq: "length (targets (run ?b (take n evs)))
         + matchingDestructions (targetFilterCallback ?b) {} (take n evs)
       = acceptedCreations (targetFilterCallback ?b) (take n evs)"
    and d: "distinct (map fst (targets (run ?b (take n evs))))"
    by simp_all
  from eq show "length (targets (run ?b (take n evs)))
        = acceptedCreations (targetFilterCallback ?b) (take n evs)
          - matchingDestructions (targetFilterCallback ?b) {} (take n evs)"
    by arith
  from eq show "matchingDestructions (targetFilterCallback ?b) {} (take n evs)
          \<le> acceptedCreations (targetFilterCallback ?b) (take n evs)"
    by arith
  from d show "distinct (map fst (targets (run ?b (take n evs))))" .
next
  assume "map_of (targets b) (targetId info) \<noteq> None \<and> targetFilterCallback b info"
  then show "targetCreated b info =
      (Some (ConsistencyError ''Target should not exist before targetCreated''), b, [])"
    using resolveContext_Some[of b info] by (auto simp: targetCreated_def)
qed

text \<open>
  A page is created, a service worker is created and filtered out, both are destroyed:
  the registry has one entry after the first two events and none after all four. A
  second creation of the registered page is the fatal error.
\<close>

theorem registry_size_is_accepted_minus_destroyed_witness:
  "uniqueIds [TargetCreatedEvent page_t1, TargetCreatedEvent worker_t2,
              TargetDestroyedEvent ''t2'', TargetDestroyedEvent ''t1'']
   \<and> length (targets (run (Browser_new [] (Some pagesOnly) None)
         (take 2 [TargetCreatedEvent page_t1, TargetCreatedEvent worker_t2,
                  TargetDestroyedEvent ''t2'', TargetDestroyedEvent ''t1'']))) = 1
   \<and> length (targets (run (Browser_new [] (Some pagesOnly) None)
         (take 4 [TargetCreatedEvent page_t1, TargetCreatedEvent worker_t2,
                  TargetDestroyedEvent ''t2'', TargetDestroyedEvent ''t1'']))) = 0
   \<and> map_of (targets browser_t1) (targetId page_t1) \<noteq> None
   \<and> targetFilterCallback browser_t1 page_t1
   \<and> fst (targetCreated browser_t1 page_t1)
       = Some (ConsistencyError ''Target should not exist before targetCreated'')"
  using registry_size_is_accepted_minus_destroyed[where
      evs = "[TargetCreatedEvent page_t1, TargetCreatedEvent worker_t2,
              TargetDestroyedEvent ''t2'', TargetDestroyedEvent ''t1'']"
      and n = 2 and contextIds = "[]" and targetFilter = "Some pagesOnly" and isPageTarget = None
      and b = browser_t1 and info = page_t1]
    registry_size_is_accepted_minus_destroyed[where
      evs = "[TargetCreatedEvent page_t1, TargetCreatedEvent worker_t2,
              TargetDestroyedEvent ''t2'', TargetDestroyedEvent ''t1'']"
      and n = 4 and contextIds = "[]" and targetFilter = "Some pagesOnly" and isPageTarget = None
      and b = browser_t1 and info = page_t1]
  by (simp add: uniqueIds_def page_t1_def worker_t2_def pagesOnly_def Browser_new_def
      browser_t1_eq handled_def targetCreated_def targetDestroyed_def resolveContext_def Let_def)

text \<open>
  The filter attaches to pages only. The page \<open>t1\<close> is registered; a second
  \<^verbatim>\<open>targetCreated\<close> announces the same id with another type. The filter rejects it, and
  the handler returns without error: the id is added to the ignored set and stays
  registered.
\<close>

theorem duplicate_targetCreated_rejected_counterexample:
  "map_of (targets (run (Browser_new [] (Some pagesOnly) None) [TargetCreatedEvent page_t1]))
       ''t1'' = Some (Target_new page_t1 defaultContext)
   \<and> targetId (page_t1\<lparr>type := ''other''\<rparr>) = ''t1''
   \<and> fst (targetCreated (run (Browser_new [] (Some pagesOnly) None) [TargetCreatedEvent page_t1])
            (page_t1\<lparr>type := ''other''\<rparr>)) = None
   \<and> targets (fst (snd (targetCreated
            (run (Browser_new [] (Some pagesOnly) None) [TargetCreatedEvent page_t1])
            (page_t1\<lparr>type := ''other''\<rparr>)))) = [(''t1'', Target_new page_t1 defaultContext)]
   \<and> ignoredTargets (fst (snd (targetCreated
            (run (Browser_new [] (Some pagesOnly) None) [TargetCreatedEvent page_t1])
            (page_t1\<lparr>type := ''other''\<rparr>)))) = {''t1''}"
  by (simp add: page_t1_def pagesOnly_def Browser_new_def handled_def targetCreated_def
      resolveContext_def)

text \<open>
  C4, as amended. When the filter rejects the target of a \<^verbatim>\<open>targetCreated\<close> event, the
  handler only adds the id to the ignored set: no error, no target registered, nothing
  emitted. After any later events \<open>evs\<close>, a \<^verbatim>\<open>targetDestroyed\<close> and a
  \<^verbatim>\<open>targetInfoChanged\<close> for the id return without error, leave the browser as it is and
  emit nothing. Provided the id is unique, that is, it was not registered before and no
  other creation event carries it, no target is registered under it and none of
  \<^verbatim>\<open>targets()\<close> has it.
\<close>

theorem filtered_target_is_ignored:
  assumes "\<not> targetFilterCallback b info"
  shows "targetCreated b info =
           (None, b\<lparr>ignoredTargets := insert (targetId info) (ignoredTargets b)\<rparr>, [])
     \<and> targetDestroyed (run (handled b (TargetCreatedEvent info)) evs) (targetId info) =
           (None, run (handled b (TargetCreatedEvent info)) evs, [])
     \<and> (targetId info' = targetId info \<longrightarrow>
           targetInfoChanged (run (handled b (TargetCreatedEvent info)) evs) info' =
             (None, run (handled b (TargetCreatedEvent info)) evs, []))
     \<and> (registryKeyedById b \<and> map_of (targets b) (targetId info) = None
          \<and> targetId info \<notin> set (createdIds evs) \<longrightarrow>
           map_of (targets (run (handled b (TargetCreatedEvent info)) evs)) (targetId info) = None
           \<and> (\<forall>t \<in> set (Browser_targets (run (handled b (TargetCreatedEvent info)) evs)).
                 targetId (targetInfo t) \<noteq> targetId info))"
proof -
  let ?b1 = "handled b (TargetCreatedEvent info)"
  let ?b' = "run ?b1 evs"
  have c: "targetCreated b info =
      (None, b\<lparr>ignoredTargets := insert (targetId info) (ignoredTargets b)\<rparr>, [])"
    using assms resolveContext_Some[of b info] by (auto simp: targetCreated_def)
  have b1: "?b1 = b\<lparr>ignoredTargets := insert (targetId info) (ignoredTargets b)\<rparr>"
    using assms by (simp add: handled_targetCreated)
  then have "targetId info \<in> ignoredTargets ?b1" by simp
  then have ign: "targetId info \<in> ignoredTargets ?b'" by (rule run_ignored_mono)
  have d: "targetDestroyed ?b' (targetId info) = (None, ?b', [])"
    using ign by (simp add: targetDestroyed_def)
  have i: "targetId info' = targetId info \<longrightarrow> targetInfoChanged ?b' info' = (None, ?b', [])"
    using ign by (simp add: targetInfoChanged_def)
  have n: "registryKeyedById b \<and> map_of (targets b) (targetId info) = None
          \<and> targetId info \<notin> set (createdIds evs) \<longrightarrow>
           map_of (targets ?b') (targetId info) = None
           \<and> (\<forall>t \<in> set (Browser_targets ?b'). targetId (targetInfo t) \<noteq> targetId info)"
  proof (intro impI, elim conjE)
    assume k: "registryKeyedById b" and u: "map_of (targets b) (targetId info) = None"
      and f: "targetId info \<notin> set (createdIds evs)"
    from k have k1: "registryKeyedById ?b1" by (rule handled_keyed)
    from u b1 have u1: "map_of (targets ?b1) (targetId info) = None" by simp
    have u': "map_of (targets ?b') (targetId info) = None" by (rule run_unregistered[OF u1 f])
    from run_keyed[OF k1] have k': "registryKeyedById ?b'" .
    from u' unregistered_not_in_targets[OF k' u']
    show "map_of (targets ?b') (targetId info) = None
           \<and> (\<forall>t \<in> set (Browser_targets ?b'). targetId (targetInfo t) \<noteq> targetId info)"
      by blast
  qed
  from c d i n show ?thesis by blast
qed

text \<open>
  The service worker \<open>t2\<close> is filtered out of a browser that attaches to pages only;
  then the page \<open>t1\<close> is created and initialized and the worker changes and goes.
\<close>

theorem filtered_target_is_ignored_witness:
  "\<not> targetFilterCallback (Browser_new [] (Some pagesOnly) None) worker_t2
   \<and> registryKeyedById (Browser_new [] (Some pagesOnly) None)
   \<and> map_of (targets (Browser_new [] (Some pagesOnly) None)) (targetId worker_t2) = None
   \<and> targetId worker_t2 \<notin> set (createdIds
         [TargetCreatedEvent page_t1, TargetInitializedEvent ''t1'' True,
          TargetInfoChangedEvent (worker_t2\<lparr>url := ''https://a.com/sw2.js''\<rparr>),
          TargetDestroyedEvent ''t2''])
   \<and> fst (targetCreated (Browser_new [] (Some pagesOnly) None) worker_t2) = None
   \<and> map (targetId \<circ> targetInfo) (Browser_targets
         (run (handled (Browser_new [] (Some pagesOnly) None) (TargetCreatedEvent worker_t2))
           [TargetCreatedEvent page_t1, TargetInitializedEvent ''t1'' True,
            TargetInfoChangedEvent (worker_t2\<lparr>url := ''https://a.com/sw2.js''\<rparr>),
            TargetDestroyedEvent ''t2''])) = [''t1'']
   \<and> fst (targetDestroyed
         (run (handled (Browser_new [] (Some pagesOnly) None) (TargetCreatedEvent worker_t2))
           [TargetCreatedEvent page_t1, TargetInitializedEvent ''t1'' True,
            TargetInfoChangedEvent (worker_t2\<lparr>url := ''https://a.com/sw2.js''\<rparr>),
            TargetDestroyedEvent ''t2'']) (targetId worker_t2)) = None"
  using filtered_target_is_ignored[where b = "Browser_new [] (Some pagesOnly) None"
      and info = worker_t2 and info' = worker_t2
      and evs = "[TargetCreatedEvent page_t1, TargetInitializedEvent ''t1'' True,
          TargetInfoChangedEvent (worker_t2\<lparr>url := ''https://a.com/sw2.js''\<rparr>),
          TargetDestroyedEvent ''t2'']"]
  by (simp add: page_t1_def worker_t2_def pagesOnly_def Browser_new_def registryKeyedById_def
      handled_def targetCreated_def targetInitialized_def targetInfoChanged_def
      targetDestroyed_def resolveContext_def Let_def Target_new_def Browser_targets_def
      Target_initializedCallback_def Target_initializedPromise_def Target_isInitialized_def
      defaultContext_def)

text \<open>
  The filter attaches to pages only. The id \<open>t1\<close> is first announced with the type
  \<open>other\<close> and filtered out; then it is announced again as a page, accepted and
  initialized. The id is in the ignored set and its target is among \<^verbatim>\<open>targets()\<close>.
\<close>

theorem filtered_target_created_again_counterexample:
  "\<not> targetFilterCallback (Browser_new [] (Some pagesOnly) None) (page_t1\<lparr>type := ''other''\<rparr>)
   \<and> targetId (page_t1\<lparr>type := ''other''\<rparr>) = ''t1''
   \<and> fst (targetCreated (Browser_new [] (Some pagesOnly) None) (page_t1\<lparr>type := ''other''\<rparr>)) = None
   \<and> ignoredTargets (handled (Browser_new [] (Some pagesOnly) None)
         (TargetCreatedEvent (page_t1\<lparr>type := ''other''\<rparr>))) = {''t1''}
   \<and> Browser_targets
         (run (handled (Browser_new [] (Some pagesOnly) None)
                 (TargetCreatedEvent (page_t1\<lparr>type := ''other''\<rparr>)))
              [TargetCreatedEvent page_t1, TargetInitializedEvent ''t1'' True]) = [target_t1]"
  by (simp add: page_t1_def target_t1_def pagesOnly_def Browser_new_def handled_def
      targetCreated_def targetInitialized_def resolveContext_def Let_def Target_new_def
      Browser_targets_def Target_initializedCallback_def Target_initializedPromise_def
      Target_isInitialized_def)

text \<open>
  C5. A \<^verbatim>\<open>targetDestroyed\<close> event for an id that is neither ignored nor registered
  throws the consistency error that names the id; the browser, and with it the registry,
  is left as it was, and nothing is emitted.
\<close>

theorem targetDestroyed_unknown_is_fatal:
  "tid \<notin> ignoredTargets b \<Longrightarrow> map_of (targets b) tid = None \<Longrightarrow>
   targetDestroyed b tid =
     (Some (ConsistencyError (''Missing target in _targetDestroyed (id = '' @ tid @ '')'')), b, [])"
  by (simp add: targetDestroyed_def)

text \<open>The id \<open>t9\<close> is unknown to the browser that tracks the page \<open>t1\<close>.\<close>

theorem targetDestroyed_unknown_is_fatal_witness:
  "''t9'' \<notin> ignoredTargets browser_t1
   \<and> map_of (targets browser_t1) ''t9'' = None
   \<and> fst (targetDestroyed browser_t1 ''t9'') =
       Some (ConsistencyError ''Missing target in _targetDestroyed (id = t9)'')
   \<and> targets (fst (snd (targetDestroyed browser_t1 ''t9''))) = [(''t1'', target_t1)]
   \<and> snd (snd (targetDestroyed browser_t1 ''t9'')) = []"
  using targetDestroyed_unknown_is_fatal[of "''t9''" browser_t1]
  by (simp add: browser_t1_eq Browser_new_def)

text \<open>
  C6. A \<^verbatim>\<open>targetInfoChanged\<close> event for a registered target that is not ignored returns
  without error; afterwards the target is registered under the same id with the info
  of the event, its context and its initialization unchanged, and the ids of the
  registry are the same. When the target was initialized before the event and the url
  of the event differs from its previous url, exactly two events are emitted:
  \<open>TargetChanged\<close> on the browser and \<open>TargetChanged\<close> on the owning context, both with the
  updated target. Otherwise nothing is emitted.
\<close>

theorem targetInfoChanged_emits_iff_initialized_and_url_changed:
  assumes "targetId info \<notin> ignoredTargets b"
    and "map_of (targets b) (targetId info) = Some target"
  shows "\<exists>b' ems target'.
     targetInfoChanged b info = (None, b', ems)
     \<and> map_of (targets b') (targetId info) = Some target'
     \<and> targetInfo target' = info
     \<and> browserContext target' = browserContext target
     \<and> initialization target' = initialization target
     \<and> map fst (targets b') = map fst (targets b)
     \<and> ems = (if Target_isInitialized target \<and> Target_url target \<noteq> Target_url target'
              then [Emit OnBrowser TargetChanged target',
                    Emit (OnContext (browserContext target)) TargetChanged target']
              else [])"
  using assms map_of_Some_key[OF assms(2)]
  by (simp add: targetInfoChanged_def Let_def Target_targetInfoChanged_def Target_url_def
      update_conv' update_keys)

text \<open>
  The scenario of the specification: the initialized page \<open>t1\<close> moves from
  \<open>about:blank\<close> to \<open>https://a.com\<close>; an event that repeats the old url emits nothing.
\<close>

theorem targetInfoChanged_emits_iff_initialized_and_url_changed_witness:
  "targetId (page_t1\<lparr>url := ''https://a.com''\<rparr>) \<notin> ignoredTargets browser_t1
   \<and> map_of (targets browser_t1) (targetId (page_t1\<lparr>url := ''https://a.com''\<rparr>)) = Some target_t1
   \<and> snd (snd (targetInfoChanged browser_t1 (page_t1\<lparr>url := ''https://a.com''\<rparr>))) =
        [Emit OnBrowser TargetChanged (target_t1\<lparr>targetInfo := page_t1\<lparr>url := ''https://a.com''\<rparr>\<rparr>),
         Emit (OnContext defaultContext) TargetChanged
           (target_t1\<lparr>targetInfo := page_t1\<lparr>url := ''https://a.com''\<rparr>\<rparr>)]
   \<and> snd (snd (targetInfoChanged browser_t1 page_t1)) = []"
  using targetInfoChanged_emits_iff_initialized_and_url_changed[of
      "page_t1\<lparr>url := ''https://a.com''\<rparr>" browser_t1 target_t1]
  by (simp add: browser_t1_eq Browser_new_def page_t1_def target_t1_def targetInfoChanged_def
      Target_isInitialized_def Target_url_def Target_targetInfoChanged_def Let_def)

text \<open>
  C7, as amended. \<^verbatim>\<open>close()\<close> on the default context fails with the invalid-operation
  error and leaves the browser as it was, whatever the connection would answer. On an
  incognito context it sends exactly one dispose request for the id of the context and
  ends as that request ends: when the request succeeds, the context is deleted from the
  registry and, the registry being keyed by id, is no longer among
  \<^verbatim>\<open>browserContexts()\<close>; when the request fails, \<^verbatim>\<open>close()\<close> fails with its error and the
  registry is unchanged.
\<close>

theorem close_default_fails_incognito_disposes:
  "BrowserContext_close b defaultContext answer =
     (Some (InvalidOperationError ''Non-incognito profiles cannot be closed!''), b)
   \<and> (isIncognito ctx \<longrightarrow>
      (\<exists>c. ctx = Some c
         \<and> fst (BrowserContext_close b ctx answer) = answer
         \<and> sent (snd (BrowserContext_close b ctx answer)) = sent b @ [Target_disposeBrowserContext c]
         \<and> (answer = None \<longrightarrow>
               contexts (snd (BrowserContext_close b ctx answer)) = AList.delete c (contexts b)
               \<and> map_of (contexts (snd (BrowserContext_close b ctx answer))) c = None
               \<and> (contextsKeyedById b \<longrightarrow>
                     ctx \<notin> set (browserContexts (snd (BrowserContext_close b ctx answer)))))
         \<and> (answer \<noteq> None \<longrightarrow>
               contexts (snd (BrowserContext_close b ctx answer)) = contexts b)))"
proof (intro conjI impI)
  show "BrowserContext_close b defaultContext answer =
     (Some (InvalidOperationError ''Non-incognito profiles cannot be closed!''), b)"
    by (simp add: BrowserContext_close_def defaultContext_def truthy_def)
next
  assume "isIncognito ctx"
  then obtain c where c: "ctx = Some c" and ne: "c \<noteq> []"
    by (cases ctx) (simp_all add: isIncognito_def truthy_def)
  let ?r = "BrowserContext_close b ctx answer"
  have r: "?r = (case answer of
              Some e \<Rightarrow> (Some e, b\<lparr>sent := sent b @ [Target_disposeBrowserContext c]\<rparr>)
            | None \<Rightarrow> (None, b\<lparr>sent := sent b @ [Target_disposeBrowserContext c],
                                contexts := AList.delete c (contexts b)\<rparr>))"
    using c ne by (simp add: BrowserContext_close_def disposeContext_def truthy_def Let_def
        split: option.split)
  have gone: "contextsKeyedById b \<longrightarrow> ctx \<notin> set (browserContexts (snd ?r))" if "answer = None"
  proof
    assume k: "contextsKeyedById b"
    show "ctx \<notin> set (browserContexts (snd ?r))"
    proof
      assume "ctx \<in> set (browserContexts (snd ?r))"
      with that r c obtain k' where kc: "(k', Some c) \<in> set (AList.delete c (contexts b))"
        by (auto simp: browserContexts_def defaultContext_def)
      with set_delete_subset[of c "contexts b"] have "(k', Some c) \<in> set (contexts b)" by blast
      with k have "k' = c" by (auto simp: contextsKeyedById_def list_all_iff)
      with kc have "c \<in> fst ` set (AList.delete c (contexts b))" by (simp add: rev_image_eqI)
      with delete_notin_dom[of c "contexts b"] show False by simp
    qed
  qed
  show "\<exists>c. ctx = Some c
         \<and> fst ?r = answer
         \<and> sent (snd ?r) = sent b @ [Target_disposeBrowserContext c]
         \<and> (answer = None \<longrightarrow>
               contexts (snd ?r) = AList.delete c (contexts b)
               \<and> map_of (contexts (snd ?r)) c = None
               \<and> (contextsKeyedById b \<longrightarrow> ctx \<notin> set (browserContexts (snd ?r))))
         \<and> (answer \<noteq> None \<longrightarrow> contexts (snd ?r) = contexts b)"
  proof (cases answer)
    case None
    with r gone c show ?thesis by (simp add: delete_conv')
  next
    case (Some e)
    with r c show ?thesis by simp
  qed
qed

text \<open>
  The browser knows the incognito context \<open>ctx1\<close>. Closing the default context fails;
  closing \<open>ctx1\<close>, with a dispose request that succeeds, removes it.
\<close>

theorem close_default_fails_incognito_disposes_witness:
  "isIncognito (Some ''ctx1'')
   \<and> contextsKeyedById (Browser_new [''ctx1''] None None)
   \<and> browserContexts (Browser_new [''ctx1''] None None) = [defaultContext, Some ''ctx1'']
   \<and> fst (BrowserContext_close (Browser_new [''ctx1''] None None) defaultContext None)
       = Some (InvalidOperationError ''Non-incognito profiles cannot be closed!'')
   \<and> fst (BrowserContext_close (Browser_new [''ctx1''] None None) (Some ''ctx1'') None) = None
   \<and> sent (snd (BrowserContext_close (Browser_new [''ctx1''] None None) (Some ''ctx1'') None))
       = [Target_disposeBrowserContext ''ctx1'']
   \<and> browserContexts (snd (BrowserContext_close (Browser_new [''ctx1''] None None)
         (Some ''ctx1'') None)) = [defaultContext]"
  using close_default_fails_incognito_disposes[of "Browser_new [''ctx1''] None None" None
      "Some ''ctx1''"]
  by (simp add: isIncognito_def truthy_def contextsKeyedById_def Browser_new_def
      browserContexts_def BrowserContext_close_def disposeContext_def)

text \<open>
  The connection is gone when the incognito context \<open>ctx1\<close> is closed: the dispose
  request is rejected, \<^verbatim>\<open>close()\<close> fails with that error, and \<open>ctx1\<close> is still among
  \<^verbatim>\<open>browserContexts()\<close>.
\<close>

theorem close_incognito_request_fails_counterexample:
  "isIncognito (Some ''ctx1'')
   \<and> browserContexts (Browser_new [''ctx1''] None None) = [defaultContext, Some ''ctx1'']
   \<and> fst (BrowserContext_close (Browser_new [''ctx1''] None None) (Some ''ctx1'')
            (Some DisconnectedError)) = Some DisconnectedError
   \<and> browserContexts (snd (BrowserContext_close (Browser_new [''ctx1''] None None) (Some ''ctx1'')
            (Some DisconnectedError))) = [defaultContext, Some ''ctx1'']"
  by (simp add: Browser_new_def browserContexts_def BrowserContext_close_def
      disposeContext_def isIncognito_def truthy_def)

text \<open>
  C8. When some name of the list has no entry in the table, \<^verbatim>\<open>overridePermissions\<close> fails
  with the unknown-permission error that names such a name, and the browser is as
  before: no request was sent. When every name has an entry, exactly one request is
  sent, a grant of the tokens of all the names, in order, for the id of an incognito
  context and without context id otherwise.
\<close>

theorem overridePermissions_unknown_or_one_grant:
  "((\<exists>p \<in> set permissions. map_of WEB_PERMISSION_TO_PROTOCOL_PERMISSION p = None) \<longrightarrow>
      (\<exists>p \<in> set permissions. map_of WEB_PERMISSION_TO_PROTOCOL_PERMISSION p = None \<and>
         overridePermissions b ctx origin permissions answer =
           (Some (UnknownPermissionError (''Unknown permission: '' @ p)), b)))
   \<and> ((\<forall>p \<in> set permissions. map_of WEB_PERMISSION_TO_PROTOCOL_PERMISSION p \<noteq> None) \<longrightarrow>
      sent (snd (overridePermissions b ctx origin permissions answer)) =
        sent b @ [Browser_grantPermissions origin (if isIncognito ctx then ctx else None)
                    (map (\<lambda>p. the (map_of WEB_PERMISSION_TO_PROTOCOL_PERMISSION p)) permissions)])"
proof (intro conjI impI)
  assume "\<exists>p \<in> set permissions. map_of WEB_PERMISSION_TO_PROTOCOL_PERMISSION p = None"
  from protocolPermissions_unknown[OF this]
  show "\<exists>p \<in> set permissions. map_of WEB_PERMISSION_TO_PROTOCOL_PERMISSION p = None \<and>
         overridePermissions b ctx origin permissions answer =
           (Some (UnknownPermissionError (''Unknown permission: '' @ p)), b)"
    by (auto simp: overridePermissions_def)
next
  assume "\<forall>p \<in> set permissions. map_of WEB_PERMISSION_TO_PROTOCOL_PERMISSION p \<noteq> None"
  from protocolPermissions_all_known[OF this]
  show "sent (snd (overridePermissions b ctx origin permissions answer)) =
        sent b @ [Browser_grantPermissions origin (if isIncognito ctx then ctx else None)
                    (map (\<lambda>p. the (map_of WEB_PERMISSION_TO_PROTOCOL_PERMISSION p)) permissions)]"
    by (simp add: overridePermissions_def Let_def isIncognito_def split: option.split)
qed

text \<open>The scenario of the specification, and a grant for a context and for the default one.\<close>

theorem overridePermissions_unknown_or_one_grant_witness:
  "overridePermissions (Browser_new [] None None) defaultContext ''https://a.com''
       [''camera'', ''bogus''] None
     = (Some (UnknownPermissionError ''Unknown permission: bogus''), Browser_new [] None None)
   \<and> sent (snd (overridePermissions (Browser_new [''ctx1''] None None) (Some ''ctx1'') ''https://a.com''
       [''camera'', ''microphone''] None))
     = [Browser_grantPermissions ''https://a.com'' (Some ''ctx1'') [''videoCapture'', ''audioCapture'']]
   \<and> sent (snd (overridePermissions (Browser_new [''ctx1''] None None) defaultContext ''https://a.com''
       [''camera'', ''microphone''] None))
     = [Browser_grantPermissions ''https://a.com'' None [''videoCapture'', ''audioCapture'']]"
  using overridePermissions_unknown_or_one_grant[of "[''camera'', ''bogus'']"
          "Browser_new [] None None" defaultContext "''https://a.com''" None]
        overridePermissions_unknown_or_one_grant[of "[''camera'', ''microphone'']"
          "Browser_new [''ctx1''] None None" "Some ''ctx1''" "''https://a.com''" None]
        overridePermissions_unknown_or_one_grant[of "[''camera'', ''microphone'']"
          "Browser_new [''ctx1''] None None" defaultContext "''https://a.com''" None]
  by (simp add: WEB_PERMISSION_TO_PROTOCOL_PERMISSION_def Browser_new_def isIncognito_def
      truthy_def defaultContext_def)

text \<open>
  C9. With a timeout of 0, \<^verbatim>\<open>waitForTarget\<close> is never rejected, whatever happens after the
  call and however often a timer fires. It stays unsettled as long as no target
  delivered by a \<open>TargetCreated\<close> or \<open>TargetChanged\<close> event of the browser satisfies the
  predicate, and it is fulfilled only with a target such an event delivered and the
  predicate holds for: the first one.
\<close>

theorem waitForTarget_timeout0_never_times_out:
  "(\<forall>e. waitForTarget b predicate 0 hs \<noteq> Rejected e)
   \<and> ((\<forall>t \<in> set (delivered hs). \<not> predicate t) \<longrightarrow>
        waitForTarget b predicate 0 hs = Unsettled)
   \<and> (\<forall>t. waitForTarget b predicate 0 hs = Fulfilled t \<longrightarrow>
        t \<in> set (delivered hs) \<and> predicate t)
   \<and> waitForTarget b predicate 0 hs =
        (case find predicate (delivered hs) of None \<Rightarrow> Unsettled | Some t \<Rightarrow> Fulfilled t)"
proof -
  have eq: "waitForTarget b predicate 0 hs =
      (case find predicate (delivered hs) of None \<Rightarrow> Unsettled | Some t \<Rightarrow> Fulfilled t)"
    by (rule waitForTarget_timeout0_find)
  have a: "\<forall>e. waitForTarget b predicate 0 hs \<noteq> Rejected e"
    unfolding eq by (simp split: option.split)
  have n: "(\<forall>t \<in> set (delivered hs). \<not> predicate t) \<longrightarrow>
        waitForTarget b predicate 0 hs = Unsettled"
    unfolding eq by (auto dest: find_Some_set split: option.split)
  have f: "\<forall>t. waitForTarget b predicate 0 hs = Fulfilled t \<longrightarrow>
        t \<in> set (delivered hs) \<and> predicate t"
    unfolding eq by (auto dest: find_Some_set split: option.splits)
  from a n f eq show ?thesis by blast
qed

text \<open>
  No event delivers a target at \<open>https://a.com\<close>: the call stays unsettled. A
  \<open>TargetChanged\<close> event that delivers the page at \<open>about:blank\<close> fulfils the other call.
\<close>

theorem waitForTarget_timeout0_never_times_out_witness:
  "waitForTarget browser_t1 (\<lambda>t. Target_url t = ''https://a.com'') 0
       [TimerFired, Emission (Emit OnBrowser TargetDestroyed target_t1), TimerFired] = Unsettled
   \<and> waitForTarget browser_t1 (\<lambda>t. Target_url t = ''about:blank'') 0
       [TimerFired, Emission (Emit OnBrowser TargetChanged target_t1), TimerFired] = Fulfilled target_t1"
  using waitForTarget_timeout0_never_times_out[of browser_t1 "\<lambda>t. Target_url t = ''https://a.com''"
      "[TimerFired, Emission (Emit OnBrowser TargetDestroyed target_t1), TimerFired]"]
    waitForTarget_timeout0_never_times_out[of browser_t1 "\<lambda>t. Target_url t = ''about:blank''"
      "[TimerFired, Emission (Emit OnBrowser TargetChanged target_t1), TimerFired]"]
  by (simp add: target_t1_def page_t1_def Target_url_def)

text \<open>
  C10. The table maps \<open>clipboard-read\<close> and \<open>clipboard-write\<close> to the one token
  \<open>clipboardReadWrite\<close>, and the four sensor permissions to \<open>sensors\<close>; the grant request
  for the two distinct clipboard permissions carries the token twice.
\<close>

theorem permission_mapping_not_injective:
  "map_of WEB_PERMISSION_TO_PROTOCOL_PERMISSION ''clipboard-read'' = Some ''clipboardReadWrite''
   \<and> map_of WEB_PERMISSION_TO_PROTOCOL_PERMISSION ''clipboard-write'' = Some ''clipboardReadWrite''
   \<and> map_of WEB_PERMISSION_TO_PROTOCOL_PERMISSION ''ambient-light-sensor'' = Some ''sensors''
   \<and> map_of WEB_PERMISSION_TO_PROTOCOL_PERMISSION ''accelerometer'' = Some ''sensors''
   \<and> map_of WEB_PERMISSION_TO_PROTOCOL_PERMISSION ''gyroscope'' = Some ''sensors''
   \<and> map_of WEB_PERMISSION_TO_PROTOCOL_PERMISSION ''magnetometer'' = Some ''sensors''
   \<and> distinct [''clipboard-read'', ''clipboard-write'']
   \<and> sent (snd (overridePermissions b ctx origin [''clipboard-read'', ''clipboard-write''] answer))
       = sent b @ [Browser_grantPermissions origin (if truthy ctx then ctx else None)
                     [''clipboardReadWrite'', ''clipboardReadWrite'']]
   \<and> \<not> distinct [''clipboardReadWrite'', ''clipboardReadWrite'']"
  by (simp add: WEB_PERMISSION_TO_PROTOCOL_PERMISSION_def overridePermissions_def
      protocolPermission_def Let_def split: option.split)

end
